theory Spec2Isabelle
  imports Main "HOL-Library.Word"
begin

unbundle bit_operations_syntax

section \<open>Machine types of the target\<close>

text \<open>
  The sketch is built for an 8-bit AVR board (SoftwareSerial, 24C256 on the two-wire bus):
  \<open>byte\<close> is 8 bits, \<open>int\<close> and \<open>unsigned int\<close> are 16 bits, \<open>float\<close> is 32 bits and
  objects are stored little-endian, so \<open>pb[0]\<close> of \<open>(byte*) &x\<close> is the low byte of \<open>x\<close>.
  A \<open>float\<close> is only ever copied bytewise by the code under study, so it is modelled by
  its 32-bit pattern. An \<open>int\<close> is a 16-bit word read through \<open>sint\<close> where the code
  uses it as a signed number.
\<close>

type_synonym byte = "8 word"
type_synonym uint = "16 word"
type_synonym cint = "16 word"
type_synonym float32 = "32 word"

record Time =
  hour :: byte
  minute :: byte
  second :: byte

record LocationItem =
  lat :: float32
  lng :: float32
  time :: Time

definition SERIALIZED_LENGTH :: uint where
  "SERIALIZED_LENGTH = 10"

definition MAX_ITEMS_IN_MEMORY :: uint where
  "MAX_ITEMS_IN_MEMORY = 3275"

section \<open>The board: EEPROM chip, two-wire bus, serial port\<close>

text \<open>
  The Wire and Serial libraries and the chip are outside the repository. Their state is
  what the sketch can observe or change:
  \<^item> \<open>mem\<close>: the content of the chip, by 16-bit address;
  \<^item> \<open>answers\<close>: whether the chip acknowledges bus transactions. Then
    \<open>Wire.available()\<close> is true after \<open>requestFrom\<close> and a write transmission is
    stored; a chip that does not answer yields no data and stores nothing;
  \<^item> \<open>bus\<close>: the transactions issued so far and the calls of \<open>delay\<close>, oldest first;
  \<^item> \<open>out\<close>: the characters printed on Serial so far;
  \<^item> \<open>rx\<close>: the bytes received on Serial and not yet read;
  \<^item> \<open>mode\<close>: the global variable \<open>mode\<close>.
  Every call site passes the device address \<open>0x50\<close>, so that parameter is left out.
\<close>

datatype bus_event = Read_Tx uint | Write_Tx uint byte | Delay nat

record board =
  mem :: "uint \<Rightarrow> byte"
  answers :: bool
  bus :: "bus_event list"
  out :: string
  rx :: "byte list"
  mode :: cint

subsection \<open>Byte access\<close>

definition i2c_eeprom_read_byte :: "uint \<Rightarrow> board \<Rightarrow> byte \<times> board" where
  "i2c_eeprom_read_byte eeaddress b =
     ((if answers b then mem b eeaddress else 0xFF),
      b\<lparr>bus := bus b @ [Read_Tx eeaddress]\<rparr>)"

definition i2c_eeprom_write_byte :: "uint \<Rightarrow> byte \<Rightarrow> board \<Rightarrow> board" where
  "i2c_eeprom_write_byte eeaddress data b =
     (case i2c_eeprom_read_byte eeaddress b of (memoryByte, b1) \<Rightarrow>
        if memoryByte = data then b1
        else b1\<lparr>mem := (if answers b1 then (mem b1)(eeaddress := data) else mem b1),
                bus := bus b1 @ [Write_Tx eeaddress data, Delay 10]\<rparr>)"

subsection \<open>Integers and floats, bytewise\<close>

text \<open>\<open>pb[k]\<close> for \<open>pb = (byte*) &i\<close> and for \<open>pb = (byte*) &f\<close>.\<close>

definition int_byte :: "cint \<Rightarrow> nat \<Rightarrow> byte" where
  "int_byte i k = ucast (drop_bit (8 * k) i)"

definition float_byte :: "float32 \<Rightarrow> nat \<Rightarrow> byte" where
  "float_byte f k = ucast (drop_bit (8 * k) f)"

text \<open>The object whose bytes \<open>pb[0]\<close>, \<open>pb[1]\<close>, ... have been assigned.\<close>

definition int_of_bytes :: "byte \<Rightarrow> byte \<Rightarrow> cint" where
  "int_of_bytes b0 b1 = ucast b0 OR push_bit 8 (ucast b1)"

definition float_of_bytes :: "byte \<Rightarrow> byte \<Rightarrow> byte \<Rightarrow> byte \<Rightarrow> float32" where
  "float_of_bytes b0 b1 b2 b3 =
     ucast b0 OR push_bit 8 (ucast b1) OR push_bit 16 (ucast b2) OR push_bit 24 (ucast b3)"

definition write_int :: "uint \<Rightarrow> cint \<Rightarrow> board \<Rightarrow> board" where
  "write_int address i b =
     i2c_eeprom_write_byte (address + 1) (int_byte i 1)
       (i2c_eeprom_write_byte (address + 0) (int_byte i 0) b)"

definition read_int :: "uint \<Rightarrow> board \<Rightarrow> cint \<times> board" where
  "read_int address b =
     (case i2c_eeprom_read_byte (address + 0) b of (b0, s1) \<Rightarrow>
      case i2c_eeprom_read_byte (address + 1) s1 of (b1, s2) \<Rightarrow>
        (int_of_bytes b0 b1, s2))"

definition write_float :: "uint \<Rightarrow> float32 \<Rightarrow> board \<Rightarrow> board" where
  "write_float address f b =
     fold (\<lambda>i. i2c_eeprom_write_byte (address + of_nat i) (float_byte f i)) [0, 1, 2, 3] b"

definition read_float :: "uint \<Rightarrow> board \<Rightarrow> float32 \<times> board" where
  "read_float address b =
     (case i2c_eeprom_read_byte (address + 0) b of (b0, s1) \<Rightarrow>
      case i2c_eeprom_read_byte (address + 1) s1 of (b1, s2) \<Rightarrow>
      case i2c_eeprom_read_byte (address + 2) s2 of (b2, s3) \<Rightarrow>
      case i2c_eeprom_read_byte (address + 3) s3 of (b3, s4) \<Rightarrow>
        (float_of_bytes b0 b1 b2 b3, s4))"

subsection \<open>Packed time\<close>

text \<open>
  The right-hand sides of \<open>hour12\<close> and \<open>packedTime\<close> in \<open>write_time\<close>: the bytes are
  promoted to \<open>int\<close>, the shifts and the subtraction are 16-bit.
\<close>

definition hour12 :: "Time \<Rightarrow> cint" where
  "hour12 t = (if hour t \<le> 12 then ucast (hour t) else ucast (hour t) - 12)"

definition packedTime :: "Time \<Rightarrow> cint" where
  "packedTime t =
     hour12 t OR push_bit 4 (ucast (minute t)) OR push_bit 10 (ucast (second t))"

definition write_time :: "uint \<Rightarrow> Time \<Rightarrow> board \<Rightarrow> board" where
  "write_time address t b = write_int address (packedTime t) b"

text \<open>
  The three assignments of \<open>read_time\<close>: \<open>>>\<close> on an \<open>int\<close> is the arithmetic shift of
  the compiler, and the result is narrowed to a byte.
\<close>

definition unpackTime :: "cint \<Rightarrow> Time" where
  "unpackTime p =
     \<lparr>hour = ucast (p AND 0xF),
      minute = ucast (signed_drop_bit 4 p AND 0x3F),
      second = ucast (signed_drop_bit 10 p AND 0x3F)\<rparr>"

definition read_time :: "uint \<Rightarrow> board \<Rightarrow> Time \<times> board" where
  "read_time address b =
     (case read_int address b of (p, s1) \<Rightarrow> (unpackTime p, s1))"

subsection \<open>Record slots\<close>

definition field_addr :: "uint \<Rightarrow> uint" where
  "field_addr index = 2 + index * SERIALIZED_LENGTH"

definition write_location_item :: "uint \<Rightarrow> LocationItem \<Rightarrow> board \<Rightarrow> board" where
  "write_location_item index loc b =
     write_time (field_addr index + 4 + 4) (time loc)
       (write_float (field_addr index + 4) (lat loc)
         (write_float (field_addr index) (lng loc) b))"

definition read_location_item :: "uint \<Rightarrow> board \<Rightarrow> LocationItem \<times> board" where
  "read_location_item index b =
     (case read_float (field_addr index) b of (g, s1) \<Rightarrow>
      case read_float (field_addr index + 4) s1 of (l, s2) \<Rightarrow>
      case read_time (field_addr index + 4 + 4) s2 of (t, s3) \<Rightarrow>
        (\<lparr>lat = l, lng = g, time = t\<rparr>, s3))"

subsection \<open>Serial output\<close>

text \<open>
  \<open>Serial.print\<close> appends characters, \<open>Serial.println\<close> appends them and a carriage
  return and line feed. The printing of numbers is that of the board's core library:
  \<open>printNumber\<close> writes an unsigned number in base 10 without padding, a negative
  \<open>int\<close> is printed as a minus sign and its magnitude. The printing of a \<open>float\<close> with a
  number of decimal places is taken as the parameter \<open>pf\<close> of the functions that use it.
\<close>

definition Serial_print :: "string \<Rightarrow> board \<Rightarrow> board" where
  "Serial_print s b = b\<lparr>out := out b @ s\<rparr>"

definition CRLF :: string where
  "CRLF = [CHR 0x0D, CHR 0x0A]"

definition Serial_println :: "string \<Rightarrow> board \<Rightarrow> board" where
  "Serial_println s b = b\<lparr>out := out b @ s @ CRLF\<rparr>"

fun printNumber :: "nat \<Rightarrow> string" where
  "printNumber n =
     (if n < 10 then [char_of (48 + n)]
      else printNumber (n div 10) @ [char_of (48 + n mod 10)])"

declare printNumber.simps [simp del]

definition print_int :: "cint \<Rightarrow> string" where
  "print_int i =
     (if sint i < 0 then CHR ''-'' # printNumber (nat (- sint i))
      else printNumber (nat (sint i)))"

definition print_uint :: "uint \<Rightarrow> string" where
  "print_uint u = printNumber (unat u)"

definition print_byte :: "byte \<Rightarrow> string" where
  "print_byte x = printNumber (unat x)"

subsection \<open>Appending a record\<close>

definition add_location_item :: "LocationItem \<Rightarrow> board \<Rightarrow> board" where
  "add_location_item loc b =
     (case read_int 0 b of (i, b1) \<Rightarrow>
        let b2 = Serial_print ''read i='' b1;
            b3 = Serial_print (print_int i) b2;
            b4 = Serial_print ''MAX='' b3;
            b5 = Serial_print (print_uint MAX_ITEMS_IN_MEMORY) b4;
            b6 = Serial_println [] b5
        in if i < MAX_ITEMS_IN_MEMORY
           then write_int 0 (i + 1) (write_location_item i loc b6)
           else b6)"

subsection \<open>Tracking\<close>

text \<open>
  What one call of \<open>gps_tracking\<close> and the rest of its \<open>loop\<close> iteration take from
  outside: whether the receiver has a fix, the item built from it, the text that
  \<open>printDateTime\<close> prints, the value of the test
  \<open>millis() > 5000 && gps.charsProcessed() < 10\<close>, and the bytes that arrive on
  Serial while the iteration runs.
\<close>

record sensing =
  location_isValid :: bool
  reading :: LocationItem
  dateTime_text :: string
  no_data :: bool
  arrived :: "byte list"

definition gps_tracking :: "sensing \<Rightarrow> board \<Rightarrow> board" where
  "gps_tracking env b =
     (let b1 = (if \<not> location_isValid env
                then Serial_println [] (Serial_print (dateTime_text env) (Serial_print ''* '' b))
                else add_location_item (reading env) b)
      in if no_data env then Serial_println ''No GPS data received: check wiring'' b1 else b1)"

subsection \<open>Commands\<close>

definition MODE_TRACKING :: cint where
  "MODE_TRACKING = 0"

definition MODE_COMMAND :: cint where
  "MODE_COMMAND = 1"

definition COMMAND_HELP :: uint where
  "COMMAND_HELP = 0"

definition COMMAND_EXPORT :: uint where
  "COMMAND_EXPORT = 1"

definition COMMAND_RESET :: uint where
  "COMMAND_RESET = 2"

definition execute_command_help :: "board \<Rightarrow> board" where
  "execute_command_help b =
     Serial_println ''2 - reset''
       (Serial_println ''1 - export''
         (Serial_println ''0 - help''
           (Serial_println ''FindingLychee 1.0.0 by Ido Ran'' b)))"

definition print_location_item ::
  "(float32 \<Rightarrow> nat \<Rightarrow> string) \<Rightarrow> LocationItem \<Rightarrow> board \<Rightarrow> board" where
  "print_location_item pf v b =
     (let b1 = Serial_print '','' (Serial_print (pf (lng v) 6) b);
          b2 = Serial_print '','' (Serial_print (pf (lat v) 6) b1);
          b3 = Serial_print '':'' (Serial_print (print_byte (hour (time v))) b2);
          b4 = Serial_print '':'' (Serial_print (print_byte (minute (time v))) b3);
          b5 = Serial_print (print_byte (second (time v))) b4
      in Serial_println [] b5)"

text \<open>
  The \<open>for\<close> loop of \<open>execute_command_export\<close>; both operands of its test are \<open>int\<close>,
  so \<open>index++\<close> never overflows while the test holds.
\<close>

lemma sint_succ:
  fixes i n :: cint
  assumes "sint i < sint n"
  shows "sint (i + 1) = sint i + 1"
proof -
  have "sint n < 2 ^ 15" using sint_lt [of n] by simp
  moreover have "- (2 ^ 15) \<le> sint i" using sint_ge [of i] by simp
  ultimately show ?thesis using assms
    by (simp add: sint_word_ariths signed_take_bit_int_eq_self)
qed

function export_loop ::
  "(float32 \<Rightarrow> nat \<Rightarrow> string) \<Rightarrow> cint \<Rightarrow> cint \<Rightarrow> board \<Rightarrow> board" where
  "export_loop pf index itemsCount b =
     (if sint index < sint itemsCount
      then (case read_location_item index b of (loc, b1) \<Rightarrow>
              export_loop pf (index + 1) itemsCount (print_location_item pf loc b1))
      else b)"
  by pat_completeness auto

termination
  by (relation "measure (\<lambda>(pf, index, itemsCount, b). nat (sint itemsCount - sint index))")
     (auto simp: sint_succ)

declare export_loop.simps [simp del]

definition execute_command_export :: "(float32 \<Rightarrow> nat \<Rightarrow> string) \<Rightarrow> board \<Rightarrow> board" where
  "execute_command_export pf b =
     (case read_int 0 b of (itemsCount, b1) \<Rightarrow>
        export_loop pf 0 itemsCount
          (Serial_println (print_int itemsCount) (Serial_print ''read itemsCount='' b1)))"

definition execute_command_reset :: "(float32 \<Rightarrow> nat \<Rightarrow> string) \<Rightarrow> board \<Rightarrow> board" where
  "execute_command_reset pf b =
     (case read_int 0 (write_int 0 0 (execute_command_export pf b)) of (zeroItems, b1) \<Rightarrow>
        Serial_println (print_int zeroItems)
          (Serial_print ''i='' (Serial_println ''Memory reset'' b1)))"

definition execute_command :: "(float32 \<Rightarrow> nat \<Rightarrow> string) \<Rightarrow> uint \<Rightarrow> board \<Rightarrow> board" where
  "execute_command pf command b =
     (if command = COMMAND_HELP then execute_command_help b
      else if command = COMMAND_EXPORT then execute_command_export pf b
      else if command = COMMAND_RESET then execute_command_reset pf b
      else b)"

text \<open>
  \<open>char\<close> is signed on the target; \<open>inChar - '0'\<close> is computed in \<open>int\<close> and converted
  to \<open>unsigned int\<close>.
\<close>

definition process_serial_command :: "(float32 \<Rightarrow> nat \<Rightarrow> string) \<Rightarrow> board \<Rightarrow> board" where
  "process_serial_command pf b =
     (case rx b of
        [] \<Rightarrow> b
      | inChar # rest \<Rightarrow>
          let b1 = Serial_println [char_of (unat inChar)]
                     (Serial_print ''>>>> '' (b\<lparr>rx := rest\<rparr>))
          in if 48 \<le> sint inChar \<and> sint inChar \<le> 57
             then execute_command pf (scast inChar - 48) b1
             else b1)"

subsection \<open>The sketch\<close>

text \<open>
  The board after reset: the chip as it is, nothing printed or received, and the
  initialiser of \<open>mode\<close>. \<open>setup\<close> prints three lines; the library version string is
  a parameter.
\<close>

definition power_on :: "(uint \<Rightarrow> byte) \<Rightarrow> bool \<Rightarrow> board" where
  "power_on m a = \<lparr>mem = m, answers = a, bus = [], out = [], rx = [], mode = MODE_TRACKING\<rparr>"

definition setup_sketch :: "string \<Rightarrow> board \<Rightarrow> board" where
  "setup_sketch libraryVersion b =
     Serial_println ''by Ido Ran''
       (Serial_println libraryVersion
         (Serial_print ''TinyGPS++ library v. ''
           (Serial_println ''Finding Lychee 1.0.0'' b)))"

text \<open>
  One iteration of \<open>loop\<close>. The bytes that arrive during the iteration are in the
  receive buffer when \<open>Serial.available()\<close> is tested at its end; \<open>gps_tracking\<close>
  never reads that buffer, and in command mode a byte that arrives before the read of
  the next iteration is one that arrived at the end of this one.
\<close>

definition loop :: "(float32 \<Rightarrow> nat \<Rightarrow> string) \<Rightarrow> sensing \<Rightarrow> board \<Rightarrow> board" where
  "loop pf env b =
     (let b1 = (if mode b = MODE_TRACKING then gps_tracking env b
                else if mode b = MODE_COMMAND then process_serial_command pf b
                else b);
          b2 = b1\<lparr>rx := rx b1 @ arrived env\<rparr>
      in if rx b2 \<noteq> [] then b2\<lparr>mode := MODE_COMMAND\<rparr> else b2)"

section \<open>Observations on the bus trace\<close>

text \<open>The number of physical write transactions in a trace, and the time spent in \<open>delay\<close>.\<close>

fun write_count :: "bus_event list \<Rightarrow> nat" where
  "write_count [] = 0"
| "write_count (Write_Tx a v # es) = Suc (write_count es)"
| "write_count (e # es) = write_count es"

fun settle_time :: "bus_event list \<Rightarrow> nat" where
  "settle_time [] = 0"
| "settle_time (Delay ms # es) = ms + settle_time es"
| "settle_time (e # es) = settle_time es"

section \<open>The bytes of a record and of a sequence of writes\<close>

text \<open>
  Names for what the statements below talk about: the byte a read of an address returns;
  a sequence of calls of \<open>i2c_eeprom_write_byte\<close>, its effect on the memory of a chip
  that answers and the bus events it produces; the ten addresses of a slot; the ten
  bytes that \<open>write_location_item\<close> passes on, in the order of its calls; and the item
  that \<open>read_location_item\<close> assembles from ten bytes.
\<close>

definition sensed :: "board \<Rightarrow> uint \<Rightarrow> byte" where
  "sensed b a = (if answers b then mem b a else 0xFF)"

definition write_bytes :: "(uint \<times> byte) list \<Rightarrow> board \<Rightarrow> board" where
  "write_bytes cs b = fold (\<lambda>(a, v). i2c_eeprom_write_byte a v) cs b"

fun apply_writes :: "(uint \<times> byte) list \<Rightarrow> (uint \<Rightarrow> byte) \<Rightarrow> (uint \<Rightarrow> byte)" where
  "apply_writes [] m = m"
| "apply_writes ((a, v) # cs) m = apply_writes cs (m(a := v))"

fun write_trace :: "(uint \<Rightarrow> byte) \<Rightarrow> (uint \<times> byte) list \<Rightarrow> bus_event list" where
  "write_trace m [] = []"
| "write_trace m ((a, v) # cs) =
     Read_Tx a # (if m a = v then [] else [Write_Tx a v, Delay 10]) @ write_trace (m(a := v)) cs"

definition slot_addrs :: "uint \<Rightarrow> uint list" where
  "slot_addrs index = map (\<lambda>k. field_addr index + of_nat k) [0..<10]"

definition stored_bytes :: "LocationItem \<Rightarrow> byte list" where
  "stored_bytes loc =
     map (float_byte (lng loc)) [0, 1, 2, 3] @ map (float_byte (lat loc)) [0, 1, 2, 3] @
     map (int_byte (packedTime (time loc))) [0, 1]"

definition decode :: "byte list \<Rightarrow> LocationItem" where
  "decode bs =
     \<lparr>lat = float_of_bytes (bs ! 4) (bs ! 5) (bs ! 6) (bs ! 7),
      lng = float_of_bytes (bs ! 0) (bs ! 1) (bs ! 2) (bs ! 3),
      time = unpackTime (int_of_bytes (bs ! 8) (bs ! 9))\<rparr>"

definition item_writes :: "uint \<Rightarrow> LocationItem \<Rightarrow> (uint \<times> byte) list" where
  "item_writes index loc = zip (slot_addrs index) (stored_bytes loc)"

definition int_writes :: "uint \<Rightarrow> cint \<Rightarrow> (uint \<times> byte) list" where
  "int_writes address i = [(address, int_byte i 0), (address + 1, int_byte i 1)]"

section \<open>Records as the log returns them\<close>

text \<open>
  Times in the range the receiver delivers, and an item with its hour in the 12-hour
  form of the stored word: an hour above 12 is reduced by 12.
\<close>

definition valid_time :: "Time \<Rightarrow> bool" where
  "valid_time t \<longleftrightarrow> unat (hour t) \<le> 23 \<and> unat (minute t) \<le> 59 \<and> unat (second t) \<le> 59"

definition hour_folded :: "LocationItem \<Rightarrow> LocationItem" where
  "hour_folded loc =
     loc\<lparr>time := (time loc)\<lparr>hour :=
       (if hour (time loc) \<le> 12 then hour (time loc) else hour (time loc) - 12)\<rparr>\<rparr>"

section \<open>The text of an export\<close>

text \<open>
  The line printed for one item; the lines of the items at indices \<open>0\<close> to \<open>n - 1\<close>, in
  increasing order; and all that \<open>execute_command_export\<close> prints: the line that reports
  the counter, then the lines of the items below the counter read as an \<open>int\<close>.
\<close>

definition item_line :: "(float32 \<Rightarrow> nat \<Rightarrow> string) \<Rightarrow> LocationItem \<Rightarrow> string" where
  "item_line pf v =
     pf (lng v) 6 @ '','' @ pf (lat v) 6 @ '','' @ print_byte (hour (time v)) @ '':'' @
     print_byte (minute (time v)) @ '':'' @ print_byte (second (time v)) @ CRLF"

definition record_lines :: "(float32 \<Rightarrow> nat \<Rightarrow> string) \<Rightarrow> board \<Rightarrow> nat \<Rightarrow> string" where
  "record_lines pf b n =
     concat (map (\<lambda>k. item_line pf (fst (read_location_item (of_nat k) b))) [0..<n])"

definition export_output :: "(float32 \<Rightarrow> nat \<Rightarrow> string) \<Rightarrow> board \<Rightarrow> string" where
  "export_output pf b =
     ''read itemsCount='' @ print_int (fst (read_int 0 b)) @ CRLF @
     record_lines pf b (nat (sint (fst (read_int 0 b))))"

section \<open>Properties\<close>

subsection \<open>Byte access: what a read returns and what a write changes\<close>

lemma write_count_append [simp]: "write_count (xs @ ys) = write_count xs + write_count ys"
  by (induction xs rule: write_count.induct) simp_all

lemma settle_time_append [simp]: "settle_time (xs @ ys) = settle_time xs + settle_time ys"
  by (induction xs rule: settle_time.induct) simp_all

lemma read_byte_fst [simp]:
  "fst (i2c_eeprom_read_byte a b) = (if answers b then mem b a else 0xFF)"
  by (simp add: i2c_eeprom_read_byte_def)

lemma read_byte_snd [simp]:
  "snd (i2c_eeprom_read_byte a b) = b\<lparr>bus := bus b @ [Read_Tx a]\<rparr>"
  by (simp add: i2c_eeprom_read_byte_def)

lemma write_byte_mem:
  "mem (i2c_eeprom_write_byte a v b) = (if answers b then (mem b)(a := v) else mem b)"
  by (auto simp: i2c_eeprom_write_byte_def case_prod_beta)

lemma write_byte_frame [simp]:
  "answers (i2c_eeprom_write_byte a v b) = answers b"
  "out (i2c_eeprom_write_byte a v b) = out b"
  "rx (i2c_eeprom_write_byte a v b) = rx b"
  "mode (i2c_eeprom_write_byte a v b) = mode b"
  by (simp_all add: i2c_eeprom_write_byte_def case_prod_beta)

lemma write_byte_bus:
  "bus (i2c_eeprom_write_byte a v b) =
     bus b @ Read_Tx a #
       (if fst (i2c_eeprom_read_byte a b) = v then [] else [Write_Tx a v, Delay 10])"
  by (simp add: i2c_eeprom_write_byte_def case_prod_beta)

text \<open>
  Claim C6. \<open>i2c_eeprom_write_byte\<close> first issues a read of the address. If the byte
  read equals the data, nothing else happens on the bus: no write transaction and no
  delay. Otherwise exactly one write transaction follows, and after it one delay of
  10 ms. On a chip that answers, writing the same value to the same address twice in a
  row takes one write transaction when the value differed from the stored byte, and
  none when it did not.
\<close>

theorem write_byte_wear_skip:
  "bus (i2c_eeprom_write_byte a v b) =
     bus b @ Read_Tx a #
       (if fst (i2c_eeprom_read_byte a b) = v then [] else [Write_Tx a v, Delay 10])
   \<and> write_count (bus (i2c_eeprom_write_byte a v b)) =
       write_count (bus b) + (if fst (i2c_eeprom_read_byte a b) = v then 0 else 1)
   \<and> settle_time (bus (i2c_eeprom_write_byte a v b)) =
       settle_time (bus b) + (if fst (i2c_eeprom_read_byte a b) = v then 0 else 10)
   \<and> (answers b \<longrightarrow>
        write_count (bus (i2c_eeprom_write_byte a v (i2c_eeprom_write_byte a v b))) =
          write_count (bus b) + (if mem b a = v then 0 else 1))"
  by (simp add: write_byte_bus write_byte_mem)

theorem write_byte_wear_skip_witness:
  "answers (power_on (\<lambda>a. 0) True) \<and>
   bus (i2c_eeprom_write_byte 5 7 (power_on (\<lambda>a. 0) True)) =
     [Read_Tx 5, Write_Tx 5 7, Delay 10] \<and>
   write_count
     (bus (i2c_eeprom_write_byte 5 7 (i2c_eeprom_write_byte 5 7 (power_on (\<lambda>a. 0) True)))) = 1"
  using write_byte_wear_skip [of 5 7 "power_on (\<lambda>a. 0) True"]
  by (simp add: power_on_def)

subsection \<open>Packed time\<close>

lemma mask4: "(0xF :: cint) = mask 4"
  by (simp add: mask_eq_exp_minus_1)

lemma mask6: "(0x3F :: cint) = mask 6"
  by (simp add: mask_eq_exp_minus_1)

lemma ucast_and_mask_byte: "ucast (x AND mask n :: cint) = (take_bit n (ucast x) :: byte)"
  by (rule bit_word_eqI) (auto simp: bit_simps)

lemma unat_take_bit_byte_le: "unat (take_bit n (w :: byte)) \<le> 2 ^ n - 1"
proof -
  have "unat (take_bit n w) < 2 ^ n" by (simp add: unsigned_take_bit_eq)
  then show ?thesis by simp
qed

lemma unpackTime_bounds:
  "unat (hour (unpackTime p)) \<le> 15 \<and> unat (minute (unpackTime p)) \<le> 63 \<and>
   unat (second (unpackTime p)) \<le> 63"
  using unat_take_bit_byte_le [of 4 "ucast p"]
    unat_take_bit_byte_le [of 6 "ucast (signed_drop_bit 4 p)"]
    unat_take_bit_byte_le [of 6 "ucast (signed_drop_bit 10 p)"]
  by (simp add: unpackTime_def mask4 mask6 ucast_and_mask_byte)

text \<open>
  Claim C10. Whatever the two bytes at the address are (stale bytes of a slot never
  written, or the 0xFF of a chip that does not answer), \<open>read_time\<close> yields an hour of
  at most 15 and a minute and a second of at most 63; so does the time of the item that
  \<open>read_location_item\<close> decodes from any slot.
\<close>

theorem read_time_masked:
  "unat (hour (fst (read_time address b))) \<le> 15 \<and>
   unat (minute (fst (read_time address b))) \<le> 63 \<and>
   unat (second (fst (read_time address b))) \<le> 63 \<and>
   unat (hour (time (fst (read_location_item index b)))) \<le> 15 \<and>
   unat (minute (time (fst (read_location_item index b)))) \<le> 63 \<and>
   unat (second (time (fst (read_location_item index b)))) \<le> 63"
  by (simp add: read_time_def read_location_item_def case_prod_beta unpackTime_bounds)

subsection \<open>Sequences of writes, and reads in normal form\<close>

lemma upt_10: "[0..<10] = [0, 1, 2, 3, 4, 5, 6, 7, 8, 9 :: nat]"
  by (simp add: upt_rec)

lemma write_bytes_Nil [simp]: "write_bytes [] b = b"
  by (simp add: write_bytes_def)

lemma write_bytes_Cons [simp]:
  "write_bytes ((a, v) # cs) b = write_bytes cs (i2c_eeprom_write_byte a v b)"
  by (simp add: write_bytes_def)

lemma write_bytes_append: "write_bytes (xs @ ys) b = write_bytes ys (write_bytes xs b)"
  by (simp add: write_bytes_def)

lemma write_int_bytes: "write_int address i b = write_bytes (int_writes address i) b"
  by (simp add: write_int_def int_writes_def)

lemma write_location_item_bytes:
  "write_location_item index loc b = write_bytes (item_writes index loc) b"
  by (simp add: write_location_item_def write_float_def write_time_def write_int_def
      item_writes_def slot_addrs_def stored_bytes_def upt_10 add.assoc)

lemma write_bytes_step:
  "write_bytes (c # cs) b = write_bytes cs (i2c_eeprom_write_byte (fst c) (snd c) b)"
  by (simp add: write_bytes_def case_prod_beta)

lemma write_bytes_frame [simp]:
  "answers (write_bytes cs b) = answers b"
  "out (write_bytes cs b) = out b"
  "rx (write_bytes cs b) = rx b"
  "mode (write_bytes cs b) = mode b"
  by (induction cs arbitrary: b) (simp_all add: write_bytes_step)

lemma write_bytes_mem:
  "mem (write_bytes cs b) = (if answers b then apply_writes cs (mem b) else mem b)"
  by (induction cs arbitrary: b) (auto simp: write_byte_mem)

lemma write_bytes_bus:
  "answers b \<Longrightarrow> bus (write_bytes cs b) = bus b @ write_trace (mem b) cs"
  by (induction cs arbitrary: b) (auto simp: write_byte_bus write_byte_mem)

lemma read_int_eq:
  "read_int a b =
     (int_of_bytes (sensed b a) (sensed b (a + 1)), b\<lparr>bus := bus b @ [Read_Tx a, Read_Tx (a + 1)]\<rparr>)"
  by (simp add: read_int_def i2c_eeprom_read_byte_def sensed_def)

lemma read_location_item_eq:
  "read_location_item index b =
     (decode (map (sensed b) (slot_addrs index)),
      b\<lparr>bus := bus b @ map Read_Tx (slot_addrs index)\<rparr>)"
  by (simp add: read_location_item_def read_float_def read_time_def read_int_def
      i2c_eeprom_read_byte_def sensed_def decode_def slot_addrs_def upt_10 add.assoc)

subsection \<open>A slot after a write\<close>

lemma apply_writes_other: "x \<notin> fst ` set cs \<Longrightarrow> apply_writes cs m x = m x"
  by (induction cs m rule: apply_writes.induct) auto

lemma apply_writes_map:
  "distinct (map fst cs) \<Longrightarrow> map (apply_writes cs m) (map fst cs) = map snd cs"
proof (induction cs m rule: apply_writes.induct)
  case (1 m)
  then show ?case by simp
next
  case (2 a v cs m)
  have d: "distinct (map fst cs)" and n: "a \<notin> fst ` set cs"
    using "2.prems" by auto
  have ih: "map (apply_writes cs (m(a := v))) (map fst cs) = map snd cs"
    using "2.IH" d by blast
  have av: "apply_writes cs (m(a := v)) a = v"
    using n by (simp add: apply_writes_other)
  show ?case
    by (simp only: apply_writes.simps list.map fst_conv snd_conv ih av)
qed

lemma unat_of_nat16: "k < 65536 \<Longrightarrow> unat (of_nat k :: uint) = k"
  by (simp add: unat_of_nat)

lemma distinct_slot_addrs: "distinct (slot_addrs index)"
proof -
  have "inj_on (\<lambda>k. field_addr index + (of_nat k :: uint)) {0..<10}"
  proof (rule inj_onI)
    fix x y :: nat
    assume "x \<in> {0..<10}" "y \<in> {0..<10}"
      and "field_addr index + of_nat x = field_addr index + of_nat y"
    then have "unat (of_nat x :: uint) = unat (of_nat y :: uint)" "x < 65536" "y < 65536"
      by simp_all
    then show "x = y" by (simp add: unat_of_nat16)
  qed
  then show ?thesis by (simp add: slot_addrs_def distinct_map)
qed

lemma length_slot_addrs [simp]: "length (slot_addrs index) = 10"
  by (simp add: slot_addrs_def)

lemma length_stored_bytes [simp]: "length (stored_bytes loc) = 10"
  by (simp add: stored_bytes_def)

lemma item_writes_fst [simp]: "map fst (item_writes index loc) = slot_addrs index"
  by (simp add: item_writes_def)

lemma item_writes_snd [simp]: "map snd (item_writes index loc) = stored_bytes loc"
  by (simp add: item_writes_def)

lemma slot_after_item_writes:
  "map (apply_writes (item_writes index loc) m) (slot_addrs index) = stored_bytes loc"
  using apply_writes_map [of "item_writes index loc" m] by (simp add: distinct_slot_addrs)

lemma float_bytes_inverse:
  "float_of_bytes (float_byte f 0) (float_byte f (Suc 0)) (float_byte f 2) (float_byte f 3) = f"
  unfolding float_of_bytes_def float_byte_def One_nat_def [symmetric]
proof (rule bit_word_eqI)
  fix n assume "n < LENGTH(32)"
  then consider "n < 8" | "8 \<le> n" "n < 16" | "16 \<le> n" "n < 24" | "24 \<le> n" "n < 32"
    by fastforce
  then show "bit (ucast (ucast (drop_bit (8 * 0) f) :: byte) OR
        push_bit 8 (ucast (ucast (drop_bit (8 * 1) f) :: byte)) OR
        push_bit 16 (ucast (ucast (drop_bit (8 * 2) f) :: byte)) OR
        push_bit 24 (ucast (ucast (drop_bit (8 * 3) f) :: byte)) :: float32) n = bit f n"
    by cases (auto simp: bit_simps)
qed

lemma int_bytes_inverse: "int_of_bytes (int_byte i 0) (int_byte i (Suc 0)) = i"
  unfolding int_of_bytes_def int_byte_def
  by (rule bit_word_eqI) (auto simp: bit_simps)

lemma decode_stored_bytes:
  "decode (stored_bytes loc) =
     \<lparr>lat = lat loc, lng = lng loc, time = unpackTime (packedTime (time loc))\<rparr>"
  by (simp add: decode_def stored_bytes_def float_bytes_inverse int_bytes_inverse)

lemma read_after_write_item:
  "answers b \<Longrightarrow>
   fst (read_location_item index (write_location_item index loc b)) = decode (stored_bytes loc)"
proof -
  assume a: "answers b"
  have "map (sensed (write_bytes (item_writes index loc) b)) (slot_addrs index) =
        map (apply_writes (item_writes index loc) (mem b)) (slot_addrs index)"
    using a by (simp add: sensed_def write_bytes_mem)
  then show ?thesis
    by (simp add: read_location_item_eq write_location_item_bytes slot_after_item_writes)
qed

subsection \<open>Round trip of a record\<close>

lemma unpack_fields:
  fixes h :: cint and m s :: byte
  assumes h: "take_bit 4 h = h" and m: "take_bit 6 m = m" and s: "take_bit 6 s = s"
  shows "unpackTime (h OR push_bit 4 (ucast m) OR push_bit 10 (ucast s)) =
           \<lparr>hour = ucast h, minute = m, second = s\<rparr>"
proof -
  have hb: "bit h n \<Longrightarrow> n < 4" for n
    using h by (metis bit_take_bit_iff)
  have mb: "bit m n \<Longrightarrow> n < 6" for n
    using m by (metis bit_take_bit_iff)
  have sb: "bit s n \<Longrightarrow> n < 6" for n
    using s by (metis bit_take_bit_iff)
  let ?p = "h OR push_bit 4 (ucast m) OR push_bit 10 (ucast s)"
  have 1: "ucast (?p AND mask 4) = (ucast h :: byte)"
    by (rule bit_word_eqI) (auto simp: bit_simps dest: hb mb sb)
  have 2: "(ucast (signed_drop_bit 4 ?p AND mask 6) :: byte) = m"
    by (rule bit_word_eqI) (auto simp: bit_simps dest: hb mb sb)
  have 3: "(ucast (signed_drop_bit 10 ?p AND mask 6) :: byte) = s"
    by (rule bit_word_eqI) (auto simp: bit_simps dest: hb mb sb)
  show ?thesis
    by (simp add: unpackTime_def mask4 mask6 1 2 3)
qed

lemma take_bit_word_self: "unat (w :: 'a::len word) < 2 ^ n \<Longrightarrow> take_bit n w = w"
  by (simp add: word_unat_eq_iff unsigned_take_bit_eq take_bit_nat_eq_self)

lemma unat_ucast_byte [simp]: "unat (ucast (x :: byte) :: cint) = unat x"
proof -
  have "unat x < 2 ^ 8" using unsigned_less [of x] by simp
  then have "unat x < 2 ^ 16" by simp
  then show ?thesis
    by (simp add: unsigned_ucast_eq take_bit_nat_eq_self)
qed

lemma byte_take_bit_6: "unat (x :: byte) \<le> 59 \<Longrightarrow> take_bit 6 x = x"
  by (rule take_bit_word_self) simp

lemma hour12_value:
  assumes "unat (hour t) \<le> 23"
  shows "unat (hour12 t) = (if unat (hour t) \<le> 12 then unat (hour t) else unat (hour t) - 12)"
proof (cases "hour t \<le> 12")
  case True
  then show ?thesis by (simp add: hour12_def word_le_nat_alt)
next
  case False
  then have "(12 :: cint) \<le> ucast (hour t)"
    by (simp add: word_le_nat_alt)
  then have "unat (ucast (hour t) - 12 :: cint) = unat (hour t) - 12"
    by (simp add: unat_sub)
  with False show ?thesis by (simp add: hour12_def word_le_nat_alt)
qed

lemma unpack_packed:
  assumes "unat (hour t) \<le> 23" "unat (minute t) \<le> 59" "unat (second t) \<le> 59"
  shows "unpackTime (packedTime t) =
           \<lparr>hour = ucast (hour12 t), minute = minute t, second = second t\<rparr>"
proof -
  have "unat (hour12 t) < 2 ^ 4"
    using assms(1) by (auto simp: hour12_value)
  then have "take_bit 4 (hour12 t) = hour12 t"
    by (rule take_bit_word_self)
  then show ?thesis
    unfolding packedTime_def
    using assms(2,3) by (intro unpack_fields byte_take_bit_6)
qed

lemma unat_ucast_hour12:
  assumes "unat (hour t) \<le> 23"
  shows "unat (ucast (hour12 t) :: byte) =
           (if unat (hour t) = 12 then 12 else unat (hour t) mod 12)"
proof -
  have "unat (hour12 t) < 2 ^ 8"
    using assms by (auto simp: hour12_value)
  then have "unat (ucast (hour12 t) :: byte) = unat (hour12 t)"
    by (simp add: unsigned_ucast_eq take_bit_nat_eq_self)
  also have "\<dots> = (if unat (hour t) = 12 then 12 else unat (hour t) mod 12)"
    using assms by (auto simp: hour12_value mod_if le_mod_geq)
  finally show ?thesis .
qed

text \<open>
  Claim C1. On a chip that answers, for every slot index and every item whose hour is in
  0..23 and whose minute and second are in 0..59, \<open>read_location_item\<close> after
  \<open>write_location_item\<close> at the same index gives back the latitude, the longitude, the
  minute and the second exactly, and the hour modulo 12, except that hour 12 stays 12.
\<close>

theorem location_item_round_trip:
  assumes "answers b"
    and "unat (hour (time loc)) \<le> 23"
    and "unat (minute (time loc)) \<le> 59"
    and "unat (second (time loc)) \<le> 59"
  shows "lat (fst (read_location_item index (write_location_item index loc b))) = lat loc \<and>
    lng (fst (read_location_item index (write_location_item index loc b))) = lng loc \<and>
    minute (time (fst (read_location_item index (write_location_item index loc b)))) =
      minute (time loc) \<and>
    second (time (fst (read_location_item index (write_location_item index loc b)))) =
      second (time loc) \<and>
    unat (hour (time (fst (read_location_item index (write_location_item index loc b))))) =
      (if unat (hour (time loc)) = 12 then 12 else unat (hour (time loc)) mod 12)"
  using assms
  by (simp add: read_after_write_item decode_stored_bytes unpack_packed unat_ucast_hour12)

theorem location_item_round_trip_witness:
  "answers (power_on (\<lambda>a. 0) True) \<and>
   lat (fst (read_location_item 3
     (write_location_item 3
       \<lparr>lat = 0x42006666, lng = 0x420B3333, time = \<lparr>hour = 14, minute = 45, second = 5\<rparr>\<rparr>
       (power_on (\<lambda>a. 0) True)))) = 0x42006666 \<and>
   unat (hour (time (fst (read_location_item 3
     (write_location_item 3
       \<lparr>lat = 0x42006666, lng = 0x420B3333, time = \<lparr>hour = 14, minute = 45, second = 5\<rparr>\<rparr>
       (power_on (\<lambda>a. 0) True)))))) = 2"
  using location_item_round_trip [of "power_on (\<lambda>a. 0) True"
      "\<lparr>lat = 0x42006666, lng = 0x420B3333, time = \<lparr>hour = 14, minute = 45, second = 5\<rparr>\<rparr>" 3]
  by (simp add: power_on_def)

subsection \<open>Addresses and the counter\<close>

lemma field_addr_unat:
  assumes "unat index < 3275"
  shows "unat (field_addr index) = 2 + 10 * unat index"
proof -
  have "unat (index * 10) = unat index * 10"
    using assms by (simp add: unat_word_ariths)
  then show ?thesis
    using assms by (simp add: field_addr_def SERIALIZED_LENGTH_def unat_word_ariths)
qed

lemma slot_addr_unat:
  assumes "unat index < 3275" "k < 10"
  shows "unat (field_addr index + of_nat k) = 2 + 10 * unat index + k"
proof -
  have "unat (of_nat k :: uint) = k"
    using assms(2) by (simp add: unat_of_nat)
  then show ?thesis
    using assms by (simp add: unat_word_ariths field_addr_unat)
qed

lemma slot_addrs_unat:
  assumes "unat index < 3275"
  shows "map unat (slot_addrs index) = map (\<lambda>k. 2 + 10 * unat index + k) [0..<10]"
  using assms by (simp add: slot_addrs_def slot_addr_unat)

lemma in_slot_addrs_unat:
  assumes "unat index < 3275" "a \<in> set (slot_addrs index)"
  shows "2 + 10 * unat index \<le> unat a \<and> unat a < 2 + 10 * unat index + 10"
  using assms by (auto simp: slot_addrs_def slot_addr_unat)

lemma counter_not_in_slot:
  assumes "unat index < 3275"
  shows "0 \<notin> set (slot_addrs index)" "1 \<notin> set (slot_addrs index)"
  using in_slot_addrs_unat [OF assms, of 0] in_slot_addrs_unat [OF assms, of 1] by auto

lemma write_trace_append:
  "write_trace m (xs @ ys) = write_trace m xs @ write_trace (apply_writes xs m) ys"
proof (induction xs arbitrary: m)
  case Nil
  show ?case by simp
next
  case (Cons x xs)
  obtain a v where x: "x = (a, v)" by (cases x)
  show ?case unfolding x by (simp add: Cons.IH del: fun_upd_apply)
qed

lemma apply_writes_append:
  "apply_writes (xs @ ys) m = apply_writes ys (apply_writes xs m)"
proof (induction xs arbitrary: m)
  case Nil
  show ?case by simp
next
  case (Cons x xs)
  obtain a v where x: "x = (a, v)" by (cases x)
  show ?case unfolding x by (simp add: Cons.IH del: fun_upd_apply)
qed

lemma sensed_frame [simp]:
  "sensed (b\<lparr>bus := x\<rparr>) = sensed b"
  "sensed (b\<lparr>out := y\<rparr>) = sensed b"
  "sensed (b\<lparr>rx := z\<rparr>) = sensed b"
  "sensed (b\<lparr>mode := w\<rparr>) = sensed b"
  by (simp_all add: sensed_def fun_eq_iff)

lemma unat_int_of_bytes: "unat (int_of_bytes x y) = unat x + 256 * unat y"
proof -
  have d: "(ucast x :: cint) AND push_bit 8 (ucast y) = 0"
    by (rule bit_word_eqI) (auto simp: bit_simps dest: bit_imp_le_length)
  have x: "unat x < 2 ^ 8" using unsigned_less [of x] by simp
  have y: "unat y < 2 ^ 8" using unsigned_less [of y] by simp
  have "unat (push_bit 8 (ucast y :: cint)) = 256 * unat y"
    using y by (simp add: push_bit_eq_mult unat_word_ariths)
  moreover have "int_of_bytes x y = ucast x + push_bit 8 (ucast y)"
    by (simp add: int_of_bytes_def disjunctive_add_eq_or [OF d])
  ultimately show ?thesis
    using x y by (simp add: unat_word_ariths)
qed

lemma negative_int_not_below_MAX:
  fixes i :: cint
  assumes "sint i < 0"
  shows "\<not> i < MAX_ITEMS_IN_MEMORY"
proof
  assume "i < MAX_ITEMS_IN_MEMORY"
  then have "uint i < 3275"
    by (simp add: MAX_ITEMS_IN_MEMORY_def word_less_def)
  moreover have "- (2 ^ 15) \<le> uint i"
  proof -
    have "(0 :: int) \<le> uint i" by simp
    moreover have "- (2 ^ 15) \<le> (0 :: int)" by simp
    ultimately show ?thesis by (rule order_trans [rotated])
  qed
  ultimately have "signed_take_bit 15 (uint i) = uint i"
    by (intro signed_take_bit_int_eq_self) simp_all
  then have "sint i = uint i"
    by (simp add: sint_uint)
  with assms show False by simp
qed

subsection \<open>Appending\<close>

lemma add_location_item_eq:
  "add_location_item loc b =
     (let i = fst (read_int 0 b);
          b6 = b\<lparr>bus := bus b @ [Read_Tx 0, Read_Tx 1],
                 out := out b @ ''read i='' @ print_int i @ ''MAX='' @
                        print_uint MAX_ITEMS_IN_MEMORY @ CRLF\<rparr>
      in if i < MAX_ITEMS_IN_MEMORY
         then write_bytes (item_writes i loc @ int_writes 0 (i + 1)) b6
         else b6)"
  by (simp add: add_location_item_def read_int_eq Let_def Serial_print_def Serial_println_def
      write_int_bytes write_location_item_bytes write_bytes_append)

lemma counter_of_silent_chip: "\<not> answers b \<Longrightarrow> fst (read_int 0 b) = 0xFFFF"
  by (simp add: read_int_eq sensed_def int_of_bytes_def)

lemma below_MAX_answers:
  assumes "fst (read_int 0 b) < MAX_ITEMS_IN_MEMORY"
  shows "answers b"
proof (rule ccontr)
  assume "\<not> answers b"
  then have "fst (read_int 0 b) = 0xFFFF" by (rule counter_of_silent_chip)
  with assms show False by (simp add: MAX_ITEMS_IN_MEMORY_def)
qed

lemma below_MAX_unat: "i < MAX_ITEMS_IN_MEMORY \<Longrightarrow> unat i < 3275"
  by (simp add: MAX_ITEMS_IN_MEMORY_def word_less_nat_alt)

lemma high_bit_negative:
  assumes "bit y 7"
  shows "sint (int_of_bytes x y) < 0"
proof -
  have "bit (int_of_bytes x y) 15"
    using assms by (simp add: int_of_bytes_def bit_simps)
  then show ?thesis
    using bit_last_iff [of "int_of_bytes x y"] by simp
qed

text \<open>
  Claim C9, as the code has it. The counter is read into an \<open>int\<close>, so when the top bit
  of the high byte read at address 1 is set (as in the 0xFF that a read yields when the
  chip returns no data) it is a negative \<open>int\<close>. The capacity test compares it with the
  \<open>unsigned int\<close> constant \<open>MAX_ITEMS_IN_MEMORY\<close>, so it is converted to \<open>unsigned int\<close>
  and the test fails: \<open>add_location_item\<close> only reads the two counter bytes, writes
  nothing and leaves the memory as it is.
\<close>

theorem add_location_item_rejects_negative:
  assumes "bit (sensed b 1) 7"
  shows "sint (fst (read_int 0 b)) < 0 \<and>
         \<not> fst (read_int 0 b) < MAX_ITEMS_IN_MEMORY \<and>
         mem (add_location_item loc b) = mem b \<and>
         bus (add_location_item loc b) = bus b @ [Read_Tx 0, Read_Tx 1]"
proof -
  have n: "sint (fst (read_int 0 b)) < 0"
    using assms by (simp add: read_int_eq high_bit_negative)
  from n negative_int_not_below_MAX [OF n] show ?thesis
    by (simp add: add_location_item_eq Let_def)
qed

lemma int_writes_fst [simp]: "fst ` set (int_writes a i) = {a, a + 1}"
  by (simp add: int_writes_def)

lemma apply_int_writes:
  "apply_writes (int_writes 0 i) m 0 = int_byte i 0"
  "apply_writes (int_writes 0 i) m 1 = int_byte i 1"
  by (simp_all add: int_writes_def)

lemma apply_int_writes_other:
  "a \<noteq> 0 \<Longrightarrow> a \<noteq> 1 \<Longrightarrow> apply_writes (int_writes 0 i) m a = m a"
  by (simp add: int_writes_def)

lemma slot_after_counter_write:
  assumes "unat index < 3275"
  shows "map (apply_writes (int_writes 0 i) m) (slot_addrs index) = map m (slot_addrs index)"
proof (rule map_cong [OF refl])
  fix a assume "a \<in> set (slot_addrs index)"
  with counter_not_in_slot [OF assms] have "a \<noteq> 0" "a \<noteq> 1" by auto
  then show "apply_writes (int_writes 0 i) m a = m a" by (rule apply_int_writes_other)
qed

lemma item_writes_other:
  "a \<notin> set (slot_addrs index) \<Longrightarrow> apply_writes (item_writes index loc) m a = m a"
proof -
  assume "a \<notin> set (slot_addrs index)"
  then have "a \<notin> fst ` set (item_writes index loc)"
    using item_writes_fst [of index loc] by (metis set_map)
  then show ?thesis by (rule apply_writes_other)
qed

lemma read_int_counter:
  "answers b \<Longrightarrow> fst (read_int 0 b) = int_of_bytes (mem b 0) (mem b 1)"
  by (simp add: read_int_eq sensed_def)

lemma add_location_item_full:
  assumes "\<not> fst (read_int 0 b) < MAX_ITEMS_IN_MEMORY"
  shows "mem (add_location_item loc b) = mem b"
    and "bus (add_location_item loc b) = bus b @ [Read_Tx 0, Read_Tx 1]"
  using assms by (simp_all add: add_location_item_eq Let_def)

lemma add_location_item_answers [simp]:
  "answers (add_location_item loc b) = answers b"
  by (simp add: add_location_item_eq Let_def)

lemma add_location_item_room:
  assumes i: "i = fst (read_int 0 b)"
    and m1: "m1 = apply_writes (item_writes i loc) (mem b)"
    and lt: "i < MAX_ITEMS_IN_MEMORY"
  shows "bus (add_location_item loc b) =
           bus b @ [Read_Tx 0, Read_Tx 1] @ write_trace (mem b) (item_writes i loc) @
           write_trace m1 (int_writes 0 (i + 1))"
    and "map m1 (slot_addrs i) = stored_bytes loc"
    and "m1 0 = mem b 0"
    and "m1 1 = mem b 1"
    and "mem (add_location_item loc b) = apply_writes (int_writes 0 (i + 1)) m1"
    and "map (mem (add_location_item loc b)) (slot_addrs i) = stored_bytes loc"
    and "fst (read_int 0 (add_location_item loc b)) = i + 1"
    and "\<forall>a. a \<notin> set (slot_addrs i) \<and> a \<noteq> 0 \<and> a \<noteq> 1 \<longrightarrow>
           mem (add_location_item loc b) a = mem b a"
proof -
  have ans: "answers b" using lt by (simp add: i below_MAX_answers)
  have small: "unat i < 3275" using lt by (rule below_MAX_unat)
  show memeq: "mem (add_location_item loc b) = apply_writes (int_writes 0 (i + 1)) m1"
    using lt ans
    by (simp add: add_location_item_eq Let_def i [symmetric] write_bytes_mem
        apply_writes_append m1)
  show "bus (add_location_item loc b) =
         bus b @ [Read_Tx 0, Read_Tx 1] @ write_trace (mem b) (item_writes i loc) @
         write_trace m1 (int_writes 0 (i + 1))"
    using lt ans
    by (simp add: add_location_item_eq Let_def i [symmetric] write_bytes_bus
        write_trace_append m1)
  show slot1: "map m1 (slot_addrs i) = stored_bytes loc"
    by (simp add: m1 slot_after_item_writes)
  show "m1 0 = mem b 0" and "m1 1 = mem b 1"
    using counter_not_in_slot [OF small] by (simp_all add: m1 item_writes_other)
  show "map (mem (add_location_item loc b)) (slot_addrs i) = stored_bytes loc"
    by (simp add: memeq slot_after_counter_write [OF small] slot1)
  have ans': "answers (add_location_item loc b)"
    using ans by simp
  show "fst (read_int 0 (add_location_item loc b)) = i + 1"
    by (simp add: read_int_counter [OF ans'] memeq apply_int_writes int_bytes_inverse)
  show "\<forall>a. a \<notin> set (slot_addrs i) \<and> a \<noteq> 0 \<and> a \<noteq> 1 \<longrightarrow>
          mem (add_location_item loc b) a = mem b a"
    by (simp add: memeq apply_int_writes_other m1 item_writes_other)
qed

text \<open>
  Claim C2, as the code has it. \<open>add_location_item\<close> reads the two counter bytes and
  returns nothing. If the counter, as an unsigned 16-bit value, is not below
  \<open>MAX_ITEMS_IN_MEMORY\<close>, nothing more happens on the bus and the memory is unchanged.
  Otherwise the bus carries the ten write calls of the record at the addresses of slot
  \<open>counter\<close>, in order, and after them the two write calls of \<open>counter + 1\<close> at
  addresses 0 and 1: once the ten record calls are done the slot holds the record's
  bytes and the counter bytes are still the old ones. At the end the slot holds the
  record, the counter reads \<open>counter + 1\<close>, and every other byte is unchanged.
\<close>

theorem add_location_item_effect:
  "(let i = fst (read_int 0 b); m1 = apply_writes (item_writes i loc) (mem b) in
    (\<not> i < MAX_ITEMS_IN_MEMORY \<longrightarrow>
       mem (add_location_item loc b) = mem b \<and>
       bus (add_location_item loc b) = bus b @ [Read_Tx 0, Read_Tx 1]) \<and>
    (i < MAX_ITEMS_IN_MEMORY \<longrightarrow>
       bus (add_location_item loc b) =
         bus b @ [Read_Tx 0, Read_Tx 1] @ write_trace (mem b) (item_writes i loc) @
         write_trace m1 (int_writes 0 (i + 1)) \<and>
       map m1 (slot_addrs i) = stored_bytes loc \<and> m1 0 = mem b 0 \<and> m1 1 = mem b 1 \<and>
       mem (add_location_item loc b) = apply_writes (int_writes 0 (i + 1)) m1 \<and>
       map (mem (add_location_item loc b)) (slot_addrs i) = stored_bytes loc \<and>
       fst (read_int 0 (add_location_item loc b)) = i + 1 \<and>
       (\<forall>a. a \<notin> set (slot_addrs i) \<and> a \<noteq> 0 \<and> a \<noteq> 1 \<longrightarrow>
          mem (add_location_item loc b) a = mem b a)))"
  unfolding Let_def
  using add_location_item_full [of b loc] add_location_item_room [OF refl refl, of b loc]
  by blast

lemma power_on_fields [simp]:
  "mem (power_on m a) = m" "answers (power_on m a) = a" "bus (power_on m a) = []"
  "out (power_on m a) = []" "rx (power_on m a) = []" "mode (power_on m a) = MODE_TRACKING"
  by (simp_all add: power_on_def)

theorem add_location_item_effect_witness:
  "fst (read_int 0 (power_on (\<lambda>a. 0) True)) < MAX_ITEMS_IN_MEMORY \<and>
   fst (read_int 0 (add_location_item
     \<lparr>lat = 0x42006666, lng = 0x420B3333, time = \<lparr>hour = 10, minute = 15, second = 30\<rparr>\<rparr>
     (power_on (\<lambda>a. 0) True))) = 1 \<and>
   \<not> fst (read_int 0 (power_on ((\<lambda>a. 0)(0 := 0xCB, 1 := 0x0C)) True)) < MAX_ITEMS_IN_MEMORY \<and>
   bus (add_location_item
     \<lparr>lat = 0x42006666, lng = 0x420B3333, time = \<lparr>hour = 10, minute = 15, second = 30\<rparr>\<rparr>
     (power_on ((\<lambda>a. 0)(0 := 0xCB, 1 := 0x0C)) True)) = [Read_Tx 0, Read_Tx 1]"
proof -
  let ?loc = "\<lparr>lat = 0x42006666, lng = 0x420B3333,
                time = \<lparr>hour = 10, minute = 15, second = 30\<rparr>\<rparr>"
  have e: "fst (read_int 0 (power_on (\<lambda>a. 0) True)) = 0"
    by (simp add: read_int_eq sensed_def power_on_def int_of_bytes_def)
  have f: "fst (read_int 0 (power_on ((\<lambda>a. 0)(0 := 0xCB, 1 := 0x0C)) True)) = 3275"
    by (simp add: read_int_eq sensed_def power_on_def int_of_bytes_def)
  have "fst (read_int 0 (add_location_item ?loc (power_on (\<lambda>a. 0) True))) = 1"
    using add_location_item_effect [of "power_on (\<lambda>a. 0) True" ?loc]
    by (simp add: Let_def e MAX_ITEMS_IN_MEMORY_def)
  moreover have "bus (add_location_item ?loc
      (power_on ((\<lambda>a. 0)(0 := 0xCB, 1 := 0x0C)) True)) = [Read_Tx 0, Read_Tx 1]"
    using add_location_item_effect [of "power_on ((\<lambda>a. 0)(0 := 0xCB, 1 := 0x0C)) True" ?loc]
    by (simp add: Let_def f MAX_ITEMS_IN_MEMORY_def)
  ultimately show ?thesis
    by (simp add: e f MAX_ITEMS_IN_MEMORY_def)
qed

text \<open>
  The claim as stated fails for a counter above the capacity: with 4000 stored, which is
  not \<open>MAX_ITEMS_IN_MEMORY\<close>, nothing is written and the counter stays 4000.
\<close>

theorem add_location_item_off_capacity:
  "fst (read_int 0 (power_on ((\<lambda>a. 0)(0 := 0xA0, 1 := 0x0F)) True)) = 4000 \<and>
   (4000 :: cint) \<noteq> MAX_ITEMS_IN_MEMORY \<and>
   bus (add_location_item
     \<lparr>lat = 0x42006666, lng = 0x420B3333, time = \<lparr>hour = 10, minute = 15, second = 30\<rparr>\<rparr>
     (power_on ((\<lambda>a. 0)(0 := 0xA0, 1 := 0x0F)) True)) = [Read_Tx 0, Read_Tx 1] \<and>
   fst (read_int 0 (add_location_item
     \<lparr>lat = 0x42006666, lng = 0x420B3333, time = \<lparr>hour = 10, minute = 15, second = 30\<rparr>\<rparr>
     (power_on ((\<lambda>a. 0)(0 := 0xA0, 1 := 0x0F)) True))) = 4000"
  by (simp add: add_location_item_eq Let_def read_int_eq sensed_def power_on_def
      int_of_bytes_def MAX_ITEMS_IN_MEMORY_def)

theorem add_location_item_rejects_negative_witness:
  "bit (sensed (power_on (\<lambda>a. 0xFF) True) 1) 7 \<and>
   sint (fst (read_int 0 (power_on (\<lambda>a. 0xFF) True))) = - 1 \<and>
   bus (add_location_item
     \<lparr>lat = 0x42006666, lng = 0x420B3333, time = \<lparr>hour = 10, minute = 15, second = 30\<rparr>\<rparr>
     (power_on (\<lambda>a. 0xFF) True)) = [Read_Tx 0, Read_Tx 1]"
proof -
  have h: "bit (sensed (power_on (\<lambda>a. 0xFF) True) 1) 7"
    by (simp add: sensed_def)
  have v: "sint (fst (read_int 0 (power_on (\<lambda>a. 0xFF) True))) = - 1"
    by (simp add: read_int_eq sensed_def int_of_bytes_def)
  from add_location_item_rejects_negative [OF h] h v show ?thesis
    by simp
qed

text \<open>
  The claim as stated fails: with 0xFF in both counter bytes, from a chip that does not
  answer or stored in one that does, the capacity test is false and no write
  transaction is issued.
\<close>

theorem add_location_item_corrupt_counter:
  "fst (read_int 0 (power_on (\<lambda>a. 0) False)) = 0xFFFF \<and>
   sint (fst (read_int 0 (power_on (\<lambda>a. 0) False))) = - 1 \<and>
   \<not> fst (read_int 0 (power_on (\<lambda>a. 0) False)) < MAX_ITEMS_IN_MEMORY \<and>
   write_count (bus (add_location_item
     \<lparr>lat = 0x42006666, lng = 0x420B3333, time = \<lparr>hour = 10, minute = 15, second = 30\<rparr>\<rparr>
     (power_on (\<lambda>a. 0) False))) = 0 \<and>
   fst (read_int 0 (power_on (\<lambda>a. 0xFF) True)) = 0xFFFF \<and>
   write_count (bus (add_location_item
     \<lparr>lat = 0x42006666, lng = 0x420B3333, time = \<lparr>hour = 10, minute = 15, second = 30\<rparr>\<rparr>
     (power_on (\<lambda>a. 0xFF) True))) = 0"
  by (simp add: add_location_item_eq Let_def read_int_eq sensed_def power_on_def
      int_of_bytes_def MAX_ITEMS_IN_MEMORY_def)

text \<open>
  Claim C7. The counter is the 16-bit value at addresses 0 and 1, low byte first. Slot
  \<open>index\<close> starts at \<open>2 + 10 * index\<close>, without wrap-around for an index below
  \<open>MAX_ITEMS_IN_MEMORY\<close>. \<open>write_location_item\<close> is the sequence of ten byte writes at
  the slot's addresses, in this order: the four bytes of the longitude, the four bytes
  of the latitude, the two bytes of the packed time; on a chip that answers the slot
  then holds these bytes and no other address has changed. \<open>read_location_item\<close>
  decodes the same ten addresses.
\<close>

theorem eeprom_layout:
  "fst (read_int 0 b) = int_of_bytes (sensed b 0) (sensed b 1) \<and>
   unat (fst (read_int 0 b)) = unat (sensed b 0) + 256 * unat (sensed b 1) \<and>
   write_int 0 i b = write_bytes [(0, int_byte i 0), (1, int_byte i 1)] b \<and>
   field_addr index = 2 + 10 * index \<and>
   (index < MAX_ITEMS_IN_MEMORY \<longrightarrow>
      map unat (slot_addrs index) = map (\<lambda>k. 2 + 10 * unat index + k) [0..<10]) \<and>
   write_location_item index loc b =
     write_bytes
       (zip (slot_addrs index)
          (map (float_byte (lng loc)) [0, 1, 2, 3] @ map (float_byte (lat loc)) [0, 1, 2, 3] @
           map (int_byte (packedTime (time loc))) [0, 1])) b \<and>
   (answers b \<longrightarrow>
      map (mem (write_location_item index loc b)) (slot_addrs index) =
        map (float_byte (lng loc)) [0, 1, 2, 3] @ map (float_byte (lat loc)) [0, 1, 2, 3] @
        map (int_byte (packedTime (time loc))) [0, 1] \<and>
      (\<forall>a. a \<notin> set (slot_addrs index) \<longrightarrow>
         mem (write_location_item index loc b) a = mem b a)) \<and>
   fst (read_location_item index b) = decode (map (sensed b) (slot_addrs index))"
proof -
  have 1: "fst (read_int 0 b) = int_of_bytes (sensed b 0) (sensed b 1)"
    by (simp add: read_int_eq)
  have 2: "unat (fst (read_int 0 b)) = unat (sensed b 0) + 256 * unat (sensed b 1)"
    by (simp add: 1 unat_int_of_bytes)
  have 3: "write_int 0 i b = write_bytes [(0, int_byte i 0), (1, int_byte i 1)] b"
    by (simp add: write_int_bytes int_writes_def)
  have 4: "field_addr index = 2 + 10 * index"
    by (simp add: field_addr_def SERIALIZED_LENGTH_def)
  have 5: "map unat (slot_addrs index) = map (\<lambda>k. 2 + 10 * unat index + k) [0..<10]"
    if "index < MAX_ITEMS_IN_MEMORY"
    using that by (intro slot_addrs_unat below_MAX_unat)
  have 6: "write_location_item index loc b =
     write_bytes
       (zip (slot_addrs index)
          (map (float_byte (lng loc)) [0, 1, 2, 3] @ map (float_byte (lat loc)) [0, 1, 2, 3] @
           map (int_byte (packedTime (time loc))) [0, 1])) b"
    unfolding write_location_item_bytes item_writes_def stored_bytes_def by (rule refl)
  have 7: "map (mem (write_location_item index loc b)) (slot_addrs index) =
        map (float_byte (lng loc)) [0, 1, 2, 3] @ map (float_byte (lat loc)) [0, 1, 2, 3] @
        map (int_byte (packedTime (time loc))) [0, 1]" if "answers b"
    using that slot_after_item_writes [of index loc "mem b"]
    unfolding write_location_item_bytes write_bytes_mem stored_bytes_def by simp
  have 8: "\<forall>a. a \<notin> set (slot_addrs index) \<longrightarrow>
         mem (write_location_item index loc b) a = mem b a" if "answers b"
    using that by (simp add: write_location_item_bytes write_bytes_mem item_writes_other)
  have 9: "fst (read_location_item index b) = decode (map (sensed b) (slot_addrs index))"
    by (simp add: read_location_item_eq)
  from 1 2 3 4 5 6 7 8 9 show ?thesis by blast
qed

theorem eeprom_layout_witness:
  "(2 :: uint) < MAX_ITEMS_IN_MEMORY \<and>
   map unat (slot_addrs 2) = [22, 23, 24, 25, 26, 27, 28, 29, 30, 31] \<and>
   answers (power_on (\<lambda>a. 0) True) \<and>
   map (mem (write_location_item 2
       \<lparr>lat = 0x42006666, lng = 0x420B3333, time = \<lparr>hour = 10, minute = 15, second = 30\<rparr>\<rparr>
       (power_on (\<lambda>a. 0) True))) (slot_addrs 2) =
     [0x33, 0x33, 0x0B, 0x42, 0x66, 0x66, 0x00, 0x42, 0xFA, 0x78]"
proof -
  let ?loc = "\<lparr>lat = 0x42006666, lng = 0x420B3333,
                time = \<lparr>hour = 10, minute = 15, second = 30\<rparr>\<rparr>"
  have lt: "(2 :: uint) < MAX_ITEMS_IN_MEMORY"
    by (simp add: MAX_ITEMS_IN_MEMORY_def)
  note L = eeprom_layout [of "power_on (\<lambda>a. 0) True" 0 2 ?loc]
  note L5 = L [THEN conjunct2, THEN conjunct2, THEN conjunct2, THEN conjunct2, THEN conjunct1]
  note L7 = L [THEN conjunct2, THEN conjunct2, THEN conjunct2, THEN conjunct2, THEN conjunct2,
      THEN conjunct2, THEN conjunct1]
  have "map unat (slot_addrs 2) = [22, 23, 24, 25, 26, 27, 28, 29, 30, 31]"
    using L5 lt by (simp add: upt_10)
  moreover have "map (mem (write_location_item 2 ?loc (power_on (\<lambda>a. 0) True))) (slot_addrs 2) =
     [0x33, 0x33, 0x0B, 0x42, 0x66, 0x66, 0x00, 0x42, 0xFA, 0x78]"
    using L7 by (simp add: float_byte_def int_byte_def packedTime_def hour12_def)
  ultimately show ?thesis using lt by simp
qed

subsection \<open>A sequence of appends\<close>

lemma ucast_hour12:
  assumes "unat (hour t) \<le> 23"
  shows "(ucast (hour12 t) :: byte) = (if hour t \<le> 12 then hour t else hour t - 12)"
proof -
  have "unat (hour12 t) < 2 ^ 8"
    using assms by (auto simp: hour12_value)
  then have "unat (ucast (hour12 t) :: byte) = unat (hour12 t)"
    by (simp add: unsigned_ucast_eq take_bit_nat_eq_self)
  moreover have "unat (if hour t \<le> 12 then hour t else hour t - 12) = unat (hour12 t)"
    using assms by (auto simp: hour12_value word_le_nat_alt unat_sub)
  ultimately show ?thesis
    by (simp add: word_unat_eq_iff)
qed

lemma decode_stored_valid:
  assumes "valid_time (time loc)"
  shows "decode (stored_bytes loc) = hour_folded loc"
  using assms
  by (simp add: decode_stored_bytes valid_time_def unpack_packed ucast_hour12 hour_folded_def)

lemma of_nat_below_MAX:
  assumes "n < 3275"
  shows "(of_nat n :: uint) < MAX_ITEMS_IN_MEMORY" and "unat (of_nat n :: uint) = n"
  using assms by (simp_all add: MAX_ITEMS_IN_MEMORY_def word_less_nat_alt unat_of_nat)

lemma slots_disjoint:
  assumes "unat i < 3275" "unat j < 3275" "unat i \<noteq> unat j" "a \<in> set (slot_addrs i)"
  shows "a \<notin> set (slot_addrs j) \<and> a \<noteq> 0 \<and> a \<noteq> 1"
proof -
  from in_slot_addrs_unat [OF assms(1,4)]
  have r: "2 + 10 * unat i \<le> unat a" "unat a < 2 + 10 * unat i + 10" by simp_all
  have "a \<notin> set (slot_addrs j)"
  proof
    assume "a \<in> set (slot_addrs j)"
    from in_slot_addrs_unat [OF assms(2) this] r assms(3) show False by arith
  qed
  moreover have "a \<noteq> 0" "a \<noteq> 1" using r by auto
  ultimately show ?thesis by simp
qed

lemma appended_invariant:
  assumes "answers b" and "fst (read_int 0 b) = 0"
  shows "length items \<le> 3275 \<Longrightarrow>
     answers (fold add_location_item items b) \<and>
     fst (read_int 0 (fold add_location_item items b)) = of_nat (length items) \<and>
     (\<forall>k<length items.
        map (mem (fold add_location_item items b)) (slot_addrs (of_nat k)) =
          stored_bytes (items ! k))"
proof (induction items rule: rev_induct)
  case Nil
  show ?case using assms by simp
next
  case (snoc x xs)
  let ?b1 = "fold add_location_item xs b"
  let ?n = "length xs"
  have n: "?n < 3275" using snoc.prems by simp
  with snoc.IH have ans: "answers ?b1"
    and ctr: "fst (read_int 0 ?b1) = of_nat ?n"
    and old: "\<forall>k<?n. map (mem ?b1) (slot_addrs (of_nat k)) = stored_bytes (xs ! k)"
    by simp_all
  have lt: "of_nat ?n < MAX_ITEMS_IN_MEMORY" using n by (rule of_nat_below_MAX)
  note room = add_location_item_room [OF ctr [symmetric] refl lt, of x]
  have 1: "answers (add_location_item x ?b1)" using ans by simp
  have 2: "fst (read_int 0 (add_location_item x ?b1)) = of_nat (Suc ?n)"
    using room(7) by simp
  have 3: "map (mem (add_location_item x ?b1)) (slot_addrs (of_nat k)) =
             stored_bytes ((xs @ [x]) ! k)" if k: "k < Suc ?n" for k
  proof (cases "k = ?n")
    case True
    then show ?thesis using room(6) by simp
  next
    case False
    with k have kn: "k < ?n" by simp
    have "map (mem (add_location_item x ?b1)) (slot_addrs (of_nat k)) =
          map (mem ?b1) (slot_addrs (of_nat k))"
    proof (rule map_cong [OF refl])
      fix a assume a: "a \<in> set (slot_addrs (of_nat k))"
      have "a \<notin> set (slot_addrs (of_nat ?n)) \<and> a \<noteq> 0 \<and> a \<noteq> 1"
        using kn n a by (intro slots_disjoint [of "of_nat k"]) (simp_all add: of_nat_below_MAX)
      with room(8) show "mem (add_location_item x ?b1) a = mem ?b1 a" by blast
    qed
    with old kn show ?thesis by (simp add: nth_append)
  qed
  from 1 2 3 show ?case by simp
qed

lemma appended_read:
  assumes "answers b" and "fst (read_int 0 b) = 0" and "length items \<le> 3275"
    and "k < length items"
  shows "fst (read_location_item (of_nat k) (fold add_location_item items b)) =
           decode (stored_bytes (items ! k))"
proof -
  from appended_invariant [OF assms(1,2,3)] assms(4)
  have a: "answers (fold add_location_item items b)"
    and s: "map (mem (fold add_location_item items b)) (slot_addrs (of_nat k)) =
              stored_bytes (items ! k)" by simp_all
  have "sensed (fold add_location_item items b) = mem (fold add_location_item items b)"
    using a by (simp add: sensed_def fun_eq_iff)
  with s show ?thesis by (simp add: read_location_item_eq)
qed

text \<open>
  Claim C3, as the code has it. Start from a chip that answers and whose counter reads
  0, and append at most \<open>MAX_ITEMS_IN_MEMORY\<close> items whose times are in range. Then the
  counter reads the number of items, and \<open>read_location_item\<close> at every index below it
  returns the item appended at that position with its latitude, longitude, minute and
  second unchanged and its hour reduced by 12 when it was above 12.
\<close>

theorem appended_items_read_back:
  assumes "answers b" and "fst (read_int 0 b) = 0"
    and "length items \<le> unat MAX_ITEMS_IN_MEMORY"
    and "\<forall>loc \<in> set items. valid_time (time loc)"
  shows "unat (fst (read_int 0 (fold add_location_item items b))) = length items \<and>
    (\<forall>k<length items.
       fst (read_location_item (of_nat k) (fold add_location_item items b)) =
         hour_folded (items ! k))"
proof -
  have len: "length items \<le> 3275"
    using assms(3) by (simp add: MAX_ITEMS_IN_MEMORY_def)
  have "fst (read_int 0 (fold add_location_item items b)) = of_nat (length items)"
    using appended_invariant [OF assms(1,2) len] by simp
  then have "unat (fst (read_int 0 (fold add_location_item items b))) = length items"
    using len by (simp add: unat_of_nat)
  moreover have "fst (read_location_item (of_nat k) (fold add_location_item items b)) =
         hour_folded (items ! k)" if "k < length items" for k
    using appended_read [OF assms(1,2) len that] assms(4) that
    by (simp add: decode_stored_valid)
  ultimately show ?thesis by simp
qed

theorem appended_items_read_back_witness:
  "answers (power_on (\<lambda>a. 0) True) \<and>
   fst (read_int 0 (power_on (\<lambda>a. 0) True)) = 0 \<and>
   valid_time \<lparr>hour = 10, minute = 15, second = 30\<rparr> \<and>
   valid_time \<lparr>hour = 14, minute = 45, second = 5\<rparr> \<and>
   unat (fst (read_int 0 (fold add_location_item
     [\<lparr>lat = 0x42006666, lng = 0x420B3333, time = \<lparr>hour = 10, minute = 15, second = 30\<rparr>\<rparr>,
      \<lparr>lat = 0x4200CCCD, lng = 0x420B999A, time = \<lparr>hour = 14, minute = 45, second = 5\<rparr>\<rparr>]
     (power_on (\<lambda>a. 0) True)))) = 2 \<and>
   fst (read_location_item 1 (fold add_location_item
     [\<lparr>lat = 0x42006666, lng = 0x420B3333, time = \<lparr>hour = 10, minute = 15, second = 30\<rparr>\<rparr>,
      \<lparr>lat = 0x4200CCCD, lng = 0x420B999A, time = \<lparr>hour = 14, minute = 45, second = 5\<rparr>\<rparr>]
     (power_on (\<lambda>a. 0) True))) =
     \<lparr>lat = 0x4200CCCD, lng = 0x420B999A, time = \<lparr>hour = 2, minute = 45, second = 5\<rparr>\<rparr>"
proof -
  let ?b = "power_on (\<lambda>a. 0) True"
  let ?items =
    "[\<lparr>lat = 0x42006666, lng = 0x420B3333, time = \<lparr>hour = 10, minute = 15, second = 30\<rparr>\<rparr>,
      \<lparr>lat = 0x4200CCCD, lng = 0x420B999A, time = \<lparr>hour = 14, minute = 45, second = 5\<rparr>\<rparr>]"
  have a: "answers ?b" by simp
  have c: "fst (read_int 0 ?b) = 0"
    by (simp add: read_int_eq sensed_def int_of_bytes_def)
  have l: "length ?items \<le> unat MAX_ITEMS_IN_MEMORY"
    by (simp add: MAX_ITEMS_IN_MEMORY_def)
  have v: "\<forall>loc \<in> set ?items. valid_time (time loc)"
    by (simp add: valid_time_def)
  note T = appended_items_read_back [OF a c l v]
  have one: "(1 :: nat) < length ?items" by simp
  from T have "unat (fst (read_int 0 (fold add_location_item ?items ?b))) = 2"
    by simp
  moreover from T [THEN conjunct2, THEN spec, THEN mp, OF one]
  have "fst (read_location_item 1 (fold add_location_item ?items ?b)) =
     \<lparr>lat = 0x4200CCCD, lng = 0x420B999A, time = \<lparr>hour = 2, minute = 45, second = 5\<rparr>\<rparr>"
    by (simp add: hour_folded_def)
  ultimately show ?thesis using a c by (simp add: valid_time_def)
qed

text \<open>
  The claim as stated fails for an hour above 12: an item appended with 14:45:05 is read
  back as 2:45:05.
\<close>

theorem appended_item_hour_changed:
  "hour (time (fst (read_location_item 1 (fold add_location_item
     [\<lparr>lat = 0x42006666, lng = 0x420B3333, time = \<lparr>hour = 10, minute = 15, second = 30\<rparr>\<rparr>,
      \<lparr>lat = 0x4200CCCD, lng = 0x420B999A, time = \<lparr>hour = 14, minute = 45, second = 5\<rparr>\<rparr>]
     (power_on (\<lambda>a. 0) True))))) = 2 \<and>
   fst (read_location_item 1 (fold add_location_item
     [\<lparr>lat = 0x42006666, lng = 0x420B3333, time = \<lparr>hour = 10, minute = 15, second = 30\<rparr>\<rparr>,
      \<lparr>lat = 0x4200CCCD, lng = 0x420B999A, time = \<lparr>hour = 14, minute = 45, second = 5\<rparr>\<rparr>]
     (power_on (\<lambda>a. 0) True))) \<noteq>
     \<lparr>lat = 0x4200CCCD, lng = 0x420B999A, time = \<lparr>hour = 14, minute = 45, second = 5\<rparr>\<rparr>"
proof -
  let ?b = "power_on (\<lambda>a. 0) True"
  let ?items =
    "[\<lparr>lat = 0x42006666, lng = 0x420B3333, time = \<lparr>hour = 10, minute = 15, second = 30\<rparr>\<rparr>,
      \<lparr>lat = 0x4200CCCD, lng = 0x420B999A, time = \<lparr>hour = 14, minute = 45, second = 5\<rparr>\<rparr>]"
  have c: "fst (read_int 0 ?b) = 0"
    by (simp add: read_int_eq sensed_def int_of_bytes_def)
  have "fst (read_location_item (of_nat 1) (fold add_location_item ?items ?b)) =
      decode (stored_bytes (?items ! 1))"
    by (rule appended_read [OF _ c]) simp_all
  then have "fst (read_location_item 1 (fold add_location_item ?items ?b)) =
     \<lparr>lat = 0x4200CCCD, lng = 0x420B999A, time = \<lparr>hour = 2, minute = 45, second = 5\<rparr>\<rparr>"
    by (simp add: decode_stored_valid valid_time_def hour_folded_def)
  then show ?thesis by (simp)
qed

subsection \<open>Export and reset\<close>

lemma print_location_item_eq:
  "print_location_item pf v b = b\<lparr>out := out b @ item_line pf v\<rparr>"
  by (simp add: print_location_item_def item_line_def Let_def Serial_print_def Serial_println_def)

lemma upt_0_Suc: "[0..<Suc m] = 0 # map Suc [0..<m]"
  by (simp add: upt_conv_Cons map_Suc_upt del: upt_Suc)

lemma export_loop_eq:
  "export_loop pf index itemsCount b =
     b\<lparr>bus := bus b @ concat (map (\<lambda>k. map Read_Tx (slot_addrs (index + of_nat k)))
                                 [0..<nat (sint itemsCount - sint index)]),
       out := out b @ concat (map (\<lambda>k. item_line pf
                                 (decode (map (sensed b) (slot_addrs (index + of_nat k)))))
                                 [0..<nat (sint itemsCount - sint index)])\<rparr>"
proof (induction pf index itemsCount b rule: export_loop.induct)
  case (1 pf index itemsCount b)
  show ?case
  proof (cases "sint index < sint itemsCount")
    case False
    then show ?thesis by (simp add: export_loop.simps [of pf index itemsCount b])
  next
    case True
    define m where "m = nat (sint itemsCount - sint (index + 1))"
    have s: "sint (index + 1) = sint index + 1" using True by (rule sint_succ)
    have n: "nat (sint itemsCount - sint index) = Suc m"
      using True by (simp add: m_def s)
    let ?b1 = "print_location_item pf (fst (read_location_item index b))
                 (snd (read_location_item index b))"
    have ih: "export_loop pf (index + 1) itemsCount ?b1 =
       ?b1\<lparr>bus := bus ?b1 @ concat (map (\<lambda>k. map Read_Tx (slot_addrs (index + 1 + of_nat k)))
                                 [0..<m]),
       out := out ?b1 @ concat (map (\<lambda>k. item_line pf
                                 (decode (map (sensed ?b1) (slot_addrs (index + 1 + of_nat k)))))
                                 [0..<m])\<rparr>"
      unfolding m_def by (rule 1 [OF True prod.collapse])
    have "export_loop pf index itemsCount b = export_loop pf (index + 1) itemsCount ?b1"
      using True by (simp add: export_loop.simps [of pf index itemsCount b] case_prod_beta)
    also note ih
    finally show ?thesis
      unfolding n upt_0_Suc
      by (simp add: read_location_item_eq print_location_item_eq comp_def add.assoc)
  qed
qed

lemma record_lines_eq:
  "record_lines pf b n =
     concat (map (\<lambda>k. item_line pf (decode (map (sensed b) (slot_addrs (of_nat k))))) [0..<n])"
  by (simp add: record_lines_def read_location_item_eq)

lemma export_eq:
  "execute_command_export pf b =
     b\<lparr>bus := bus b @ [Read_Tx 0, Read_Tx 1] @
              concat (map (\<lambda>k. map Read_Tx (slot_addrs (of_nat k)))
                [0..<nat (sint (fst (read_int 0 b)))]),
       out := out b @ export_output pf b\<rparr>"
  by (simp add: execute_command_export_def read_int_eq export_loop_eq Serial_print_def
      Serial_println_def export_output_def record_lines_eq)

lemma export_frame [simp]:
  "mem (execute_command_export pf b) = mem b"
  "answers (execute_command_export pf b) = answers b"
  "rx (execute_command_export pf b) = rx b"
  "mode (execute_command_export pf b) = mode b"
  "sensed (execute_command_export pf b) = sensed b"
  by (simp_all add: export_eq)

lemma export_output_cong:
  "sensed b' = sensed b \<Longrightarrow> export_output pf b' = export_output pf b"
  by (simp add: export_output_def record_lines_eq read_int_eq)

lemma int_byte_0 [simp]: "int_byte 0 k = 0"
  by (simp add: int_byte_def)

lemma reset_eq:
  "execute_command_reset pf b =
     (let b2 = write_int 0 0 (execute_command_export pf b) in
      b2\<lparr>bus := bus b2 @ [Read_Tx 0, Read_Tx 1],
         out := out b @ export_output pf b @ ''Memory reset'' @ CRLF @ ''i='' @
                print_int (fst (read_int 0 b2)) @ CRLF\<rparr>)"
  by (simp add: execute_command_reset_def read_int_eq Let_def Serial_print_def
      Serial_println_def write_int_bytes export_eq)

lemma reset_frame [simp]:
  "answers (execute_command_reset pf b) = answers b"
  "rx (execute_command_reset pf b) = rx b"
  "mode (execute_command_reset pf b) = mode b"
  by (simp_all add: reset_eq Let_def write_int_bytes)

lemma reset_mem:
  "answers b \<Longrightarrow> mem (execute_command_reset pf b) = apply_writes (int_writes 0 0) (mem b)"
  by (simp add: reset_eq Let_def write_int_bytes write_bytes_mem)

lemma reset_counter:
  assumes "answers b"
  shows "fst (read_int 0 (write_int 0 0 (execute_command_export pf b))) = 0"
    and "fst (read_int 0 (execute_command_reset pf b)) = 0"
  using assms
  by (simp_all add: read_int_counter reset_mem write_int_bytes write_bytes_mem apply_int_writes
      int_of_bytes_def)

text \<open>
  Claim C5, as the code has it. \<open>execute_command_export\<close> first prints the line
  \<open>read itemsCount=\<close> followed by the counter as a signed decimal. Then it prints one
  line per item for the indices from 0 up to the counter (read as an \<open>int\<close>) minus one,
  in increasing order and nothing else: the longitude with 6 decimal places, a comma,
  the latitude with 6 decimal places, a comma, and hour, minute and second as unpadded
  decimals separated by colons. The memory is not changed.
\<close>

theorem export_emits:
  "out (execute_command_export pf b) =
     out b @ ''read itemsCount='' @ print_int (fst (read_int 0 b)) @ CRLF @
     concat (map (\<lambda>k. item_line pf (fst (read_location_item (of_nat k) b)))
       [0..<nat (sint (fst (read_int 0 b)))]) \<and>
   item_line pf v =
     pf (lng v) 6 @ '','' @ pf (lat v) 6 @ '','' @ print_byte (hour (time v)) @ '':'' @
     print_byte (minute (time v)) @ '':'' @ print_byte (second (time v)) @ CRLF \<and>
   mem (execute_command_export pf b) = mem b"
  by (simp add: export_eq export_output_def record_lines_def item_line_def)

text \<open>
  The claim as stated fails: on an empty log, where it promises no output at all, the
  export prints the line that reports the counter.
\<close>

theorem export_header_line:
  "fst (read_int 0 (power_on (\<lambda>a. 0) True)) = 0 \<and>
   record_lines (\<lambda>f d. []) (power_on (\<lambda>a. 0) True)
     (unat (fst (read_int 0 (power_on (\<lambda>a. 0) True)))) = [] \<and>
   out (execute_command_export (\<lambda>f d. []) (power_on (\<lambda>a. 0) True)) =
     ''read itemsCount=0'' @ CRLF"
proof -
  have c: "fst (read_int 0 (power_on (\<lambda>a. 0) True)) = 0"
    by (simp add: read_int_eq sensed_def int_of_bytes_def)
  have p: "print_int 0 = ''0''" by code_simp
  show ?thesis
    by (simp add: c export_eq export_output_def record_lines_def p)
qed

text \<open>
  Claim C4. \<open>execute_command_reset\<close> prints what \<open>execute_command_export\<close> prints, then
  \<open>Memory reset\<close> and the counter read back; run right after an export, its export part
  is the text that export printed. On a chip that answers the counter then reads 0: the
  two counter bytes are 0, every other byte is unchanged, and the only write calls on
  the bus are those of 0 to addresses 0 and 1.
\<close>

theorem reset_after_export:
  "out (execute_command_export pf b) = out b @ export_output pf b \<and>
   out (execute_command_reset pf b) =
     out b @ export_output pf b @ ''Memory reset'' @ CRLF @ ''i='' @
     print_int (fst (read_int 0 (execute_command_reset pf b))) @ CRLF \<and>
   out (execute_command_reset pf (execute_command_export pf b)) =
     out (execute_command_export pf b) @ export_output pf b @ ''Memory reset'' @ CRLF @
     ''i='' @
     print_int (fst (read_int 0 (execute_command_reset pf (execute_command_export pf b)))) @
     CRLF \<and>
   (answers b \<longrightarrow>
      fst (read_int 0 (execute_command_reset pf b)) = 0 \<and>
      mem (execute_command_reset pf b) 0 = 0 \<and> mem (execute_command_reset pf b) 1 = 0 \<and>
      (\<forall>a. a \<noteq> 0 \<and> a \<noteq> 1 \<longrightarrow> mem (execute_command_reset pf b) a = mem b a) \<and>
      bus (execute_command_reset pf b) =
        bus (execute_command_export pf b) @ write_trace (mem b) [(0, 0), (1, 0)] @
        [Read_Tx 0, Read_Tx 1])"
proof -
  have same: "fst (read_int 0 (execute_command_reset pf c)) =
      fst (read_int 0 (write_int 0 0 (execute_command_export pf c)))" for c
    by (simp add: reset_eq Let_def read_int_eq)
  have 1: "out (execute_command_export pf b) = out b @ export_output pf b"
    by (simp add: export_eq)
  have 2: "out (execute_command_reset pf c) =
     out c @ export_output pf c @ ''Memory reset'' @ CRLF @ ''i='' @
     print_int (fst (read_int 0 (execute_command_reset pf c))) @ CRLF" for c
    unfolding same by (simp add: reset_eq Let_def)
  have 3: "export_output pf (execute_command_export pf b) = export_output pf b"
    by (rule export_output_cong) simp
  have 4: "fst (read_int 0 (execute_command_reset pf b)) = 0 \<and>
      mem (execute_command_reset pf b) 0 = 0 \<and> mem (execute_command_reset pf b) 1 = 0 \<and>
      (\<forall>a. a \<noteq> 0 \<and> a \<noteq> 1 \<longrightarrow> mem (execute_command_reset pf b) a = mem b a) \<and>
      bus (execute_command_reset pf b) =
        bus (execute_command_export pf b) @ write_trace (mem b) [(0, 0), (1, 0)] @
        [Read_Tx 0, Read_Tx 1]" if a: "answers b"
  proof -
    have "bus (execute_command_reset pf b) =
        bus (execute_command_export pf b) @ write_trace (mem b) (int_writes 0 0) @
        [Read_Tx 0, Read_Tx 1]"
      using a by (simp add: reset_eq Let_def write_int_bytes write_bytes_bus)
    then show ?thesis
      using a by (simp add: reset_counter reset_mem apply_int_writes apply_int_writes_other
          int_writes_def)
  qed
  from 1 2 [of b] 2 [of "execute_command_export pf b"] 3 4 show ?thesis
    by simp
qed

lemma unpackTime_example: "unpackTime 0x78FA = \<lparr>hour = 10, minute = 15, second = 30\<rparr>"
  by code_simp

theorem export_emits_witness:
  "out (execute_command_export (\<lambda>f d. ''x'')
     (power_on ((\<lambda>a. 0)(0 := 1, 10 := 0xFA, 11 := 0x78)) True)) =
   ''read itemsCount=1'' @ CRLF @ ''x,x,10:15:30'' @ CRLF"
proof -
  let ?b = "power_on ((\<lambda>a. 0)(0 := 1, 10 := 0xFA, 11 := 0x78)) True"
  have c: "fst (read_int 0 ?b) = 1"
    by (simp add: read_int_eq sensed_def int_of_bytes_def)
  have t: "time (fst (read_location_item 0 ?b)) = \<lparr>hour = 10, minute = 15, second = 30\<rparr>"
    by (simp add: read_location_item_eq decode_def slot_addrs_def upt_10 field_addr_def
        SERIALIZED_LENGTH_def sensed_def int_of_bytes_def unpackTime_example)
  have p: "print_int 1 = ''1''" "print_byte 10 = ''10''" "print_byte 15 = ''15''"
    "print_byte 30 = ''30''"
    by code_simp+
  from export_emits [of "\<lambda>f d. ''x''" ?b] show ?thesis
    by (simp add: c t p)
qed

theorem reset_after_export_witness:
  "answers (power_on ((\<lambda>a. 0)(0 := 1, 10 := 0xFA, 11 := 0x78)) True) \<and>
   fst (read_int 0 (execute_command_reset (\<lambda>f d. ''x'')
     (power_on ((\<lambda>a. 0)(0 := 1, 10 := 0xFA, 11 := 0x78)) True))) = 0 \<and>
   mem (execute_command_reset (\<lambda>f d. ''x'')
     (power_on ((\<lambda>a. 0)(0 := 1, 10 := 0xFA, 11 := 0x78)) True)) 10 = 0xFA"
  using reset_after_export [of "\<lambda>f d. ''x''"
      "power_on ((\<lambda>a. 0)(0 := 1, 10 := 0xFA, 11 := 0x78)) True"]
  by simp

subsection \<open>The mode of the sketch\<close>

lemma Serial_frame [simp]:
  "mode (Serial_print s b) = mode b" "rx (Serial_print s b) = rx b"
  "mode (Serial_println s b) = mode b" "rx (Serial_println s b) = rx b"
  by (simp_all add: Serial_print_def Serial_println_def)

lemma add_location_item_frame [simp]:
  "mode (add_location_item loc b) = mode b" "rx (add_location_item loc b) = rx b"
  by (simp_all add: add_location_item_eq Let_def)

lemma gps_tracking_frame [simp]:
  "mode (gps_tracking env b) = mode b" "rx (gps_tracking env b) = rx b"
  by (simp_all add: gps_tracking_def Let_def)

lemma execute_command_mode [simp]: "mode (execute_command pf command b) = mode b"
  by (simp add: execute_command_def execute_command_help_def)

lemma process_serial_command_mode [simp]: "mode (process_serial_command pf b) = mode b"
  by (simp add: process_serial_command_def Let_def split: list.split)

lemma setup_sketch_frame [simp]:
  "mode (setup_sketch v b) = mode b" "rx (setup_sketch v b) = rx b"
  by (simp_all add: setup_sketch_def)

lemma loop_tracking:
  assumes "mode b = MODE_TRACKING"
  shows "mode (loop pf env b) = (if rx b @ arrived env \<noteq> [] then MODE_COMMAND else MODE_TRACKING)"
    and "rx (loop pf env b) = rx b @ arrived env"
  using assms by (simp_all add: loop_def Let_def)

lemma loop_command:
  assumes "mode b = MODE_COMMAND"
  shows "mode (loop pf env b) = MODE_COMMAND"
  using assms by (simp add: loop_def Let_def MODE_COMMAND_def MODE_TRACKING_def)

lemma loops_command:
  "mode b = MODE_COMMAND \<Longrightarrow> mode (fold (loop pf) envs b) = MODE_COMMAND"
  by (induction envs arbitrary: b) (simp_all add: loop_command)

text \<open>
  Claim C8. After \<open>setup\<close> the mode is \<open>MODE_TRACKING\<close>. An iteration of \<open>loop\<close> that
  starts in \<open>MODE_TRACKING\<close> ends in \<open>MODE_COMMAND\<close> exactly when a byte is in the receive
  buffer at its end, whatever the byte is, and else stays in \<open>MODE_TRACKING\<close>. From
  \<open>MODE_COMMAND\<close> every further run of iterations, with any input, ends in
  \<open>MODE_COMMAND\<close>.
\<close>

theorem mode_transitions:
  "mode (setup_sketch v (power_on m a)) = MODE_TRACKING \<and>
   (mode b = MODE_TRACKING \<and> rx b @ arrived env \<noteq> [] \<longrightarrow>
      mode (loop pf env b) = MODE_COMMAND) \<and>
   (mode b = MODE_TRACKING \<and> rx b @ arrived env = [] \<longrightarrow>
      mode (loop pf env b) = MODE_TRACKING) \<and>
   (mode b = MODE_COMMAND \<longrightarrow> mode (fold (loop pf) envs b) = MODE_COMMAND)"
  by (simp add: loop_tracking loops_command)

theorem mode_transitions_witness:
  "mode (setup_sketch ''1.0.2'' (power_on (\<lambda>a. 0) True)) = MODE_TRACKING \<and>
   rx (setup_sketch ''1.0.2'' (power_on (\<lambda>a. 0) True)) @ [0x41] \<noteq> [] \<and>
   mode (loop (\<lambda>f d. ''x'')
     \<lparr>location_isValid = False,
      reading = \<lparr>lat = 0, lng = 0, time = \<lparr>hour = 0, minute = 0, second = 0\<rparr>\<rparr>,
      dateTime_text = [], no_data = False, arrived = [0x41]\<rparr>
     (setup_sketch ''1.0.2'' (power_on (\<lambda>a. 0) True))) = MODE_COMMAND \<and>
   mode (fold (loop (\<lambda>f d. ''x''))
     [\<lparr>location_isValid = True,
       reading = \<lparr>lat = 0, lng = 0, time = \<lparr>hour = 0, minute = 0, second = 0\<rparr>\<rparr>,
       dateTime_text = [], no_data = False, arrived = []\<rparr>]
     (loop (\<lambda>f d. ''x'')
       \<lparr>location_isValid = False,
        reading = \<lparr>lat = 0, lng = 0, time = \<lparr>hour = 0, minute = 0, second = 0\<rparr>\<rparr>,
        dateTime_text = [], no_data = False, arrived = [0x41]\<rparr>
       (setup_sketch ''1.0.2'' (power_on (\<lambda>a. 0) True)))) = MODE_COMMAND"
proof -
  let ?b = "setup_sketch ''1.0.2'' (power_on (\<lambda>a. 0) True)"
  let ?e = "\<lparr>location_isValid = False,
      reading = \<lparr>lat = 0, lng = 0, time = \<lparr>hour = 0, minute = 0, second = 0\<rparr>\<rparr>,
      dateTime_text = [], no_data = False, arrived = [0x41]\<rparr>"
  let ?e' = "\<lparr>location_isValid = True,
       reading = \<lparr>lat = 0, lng = 0, time = \<lparr>hour = 0, minute = 0, second = 0\<rparr>\<rparr>,
       dateTime_text = [], no_data = False, arrived = []\<rparr>"
  note A = mode_transitions [of "''1.0.2''" "\<lambda>a. 0" True ?b ?e "\<lambda>f d. ''x''" "[]"]
  have 1: "mode ?b = MODE_TRACKING" using A by blast
  have 2: "mode (loop (\<lambda>f d. ''x'') ?e ?b) = MODE_COMMAND"
    using A 1 by simp
  note B = mode_transitions [of "''1.0.2''" "\<lambda>a. 0" True "loop (\<lambda>f d. ''x'') ?e ?b" ?e
      "\<lambda>f d. ''x''" "[?e']"]
  have 3: "mode (fold (loop (\<lambda>f d. ''x'')) [?e'] (loop (\<lambda>f d. ''x'') ?e ?b)) = MODE_COMMAND"
    using B 2 by blast
  from 1 2 3 show ?thesis by simp
qed

end
